theory Spec2Isabelle
  imports Main "HOL-Library.Multiset" "HOL-Library.Sublist"
begin

section \<open>Data model\<close>

text \<open>
  A spreadsheet cell as pandas hands it to the program: a Python string, a number, or
  the missing-value marker NaN.
\<close>

datatype cell = Str string | Num int | NaN

text \<open>
  A row of a DataFrame (a pandas Series): a finite map from column label to value.
  A DataFrame is the list of its rows in positional order, each with its index label.
\<close>

type_synonym row = "string \<Rightarrow> cell option"

type_synonym dataframe = "(nat \<times> row) list"

datatype error = KeyError string

text \<open>\<^verbatim>\<open>series.get(label)\<close>: the value, or Python's None when the label is absent.\<close>

definition row_get :: "row \<Rightarrow> string \<Rightarrow> cell option" where
  "row_get r label = r label"

text \<open>\<^verbatim>\<open>series[label]\<close>: the value, or KeyError when the label is absent.\<close>

definition row_getitem :: "row \<Rightarrow> string \<Rightarrow> error + cell" where
  "row_getitem r label = (case r label of None \<Rightarrow> Inl (KeyError label) | Some v \<Rightarrow> Inr v)"

text \<open>
  Python's \<^verbatim>\<open>==\<close> and \<^verbatim>\<open>!=\<close> on the values a lookup returns (None is
  \<open>None\<close>): structural, except that NaN is not equal to itself.
\<close>

definition py_eq :: "cell option \<Rightarrow> cell option \<Rightarrow> bool" where
  "py_eq a b = (a = b \<and> a \<noteq> Some NaN)"

definition py_ne :: "cell option \<Rightarrow> cell option \<Rightarrow> bool" where
  "py_ne a b = (\<not> py_eq a b)"

definition bind_err :: "error + 'a \<Rightarrow> ('a \<Rightarrow> error + 'b) \<Rightarrow> error + 'b" where
  "bind_err x f = (case x of Inl e \<Rightarrow> Inl e | Inr v \<Rightarrow> f v)"

text \<open>One entry of the \<^verbatim>\<open>matches\<close> list (a dict with these fifteen keys).\<close>

record match_record =
  Mentor_Name :: "cell option"
  Student_Index :: nat
  Student_Age :: cell
  Student_Gender_Preference :: cell
  Mentor_Index :: nat
  Mentor_Age :: cell
  Mentor_Title :: cell
  Match_Reason :: string
  Same_Campus_Match :: string
  Assigned_Campus :: cell
  Student_Phone :: cell
  Student_Email :: cell
  Student_Personal_Email :: cell
  Disability :: cell
  Activity_Preference :: cell

section \<open>Preprocessing: title to gender\<close>

definition is_space :: "char \<Rightarrow> bool" where
  "is_space c = ((of_char c :: nat) \<in> {9, 10, 11, 12, 13, 28, 29, 30, 31, 32})"

definition lower_char :: "char \<Rightarrow> char" where
  "lower_char c =
     (if 65 \<le> (of_char c :: nat) \<and> (of_char c :: nat) \<le> 90
      then char_of ((of_char c :: nat) + 32) else c)"

definition lower :: "string \<Rightarrow> string" where
  "lower s = map lower_char s"

definition strip :: "string \<Rightarrow> string" where
  "strip s = rev (dropWhile is_space (rev (dropWhile is_space s)))"

text \<open>Python's \<^verbatim>\<open>needle in haystack\<close> on strings, as a left-to-right search.\<close>

fun starts_with :: "string \<Rightarrow> string \<Rightarrow> bool" where
  "starts_with [] s = True"
| "starts_with (p # ps) [] = False"
| "starts_with (p # ps) (c # cs) = (p = c \<and> starts_with ps cs)"

fun py_in :: "string \<Rightarrow> string \<Rightarrow> bool" where
  "py_in needle [] = (needle = [])"
| "py_in needle (c # cs) = (starts_with needle (c # cs) \<or> py_in needle cs)"

text \<open>
  \<^verbatim>\<open>
  def map_title_to_gender(title):
      if not isinstance(title, str): return 'Unknown'
      title_clean = title.lower().strip()
      if 'mr' in title_clean: return 'Male'
      if 'ms' in title_clean or 'ms' in title_clean: return 'Female'
      return 'Unknown'
  \<close>
\<close>

definition map_title_to_gender :: "cell \<Rightarrow> string" where
  "map_title_to_gender title =
     (case title of
        Str t \<Rightarrow>
          (let title_clean = strip (lower t) in
           if py_in ''mr'' title_clean then ''Male''
           else if py_in ''ms'' title_clean \<or> py_in ''ms'' title_clean then ''Female''
           else ''Unknown'')
      | _ \<Rightarrow> ''Unknown'')"

section \<open>The matching engine\<close>

text \<open>
  Rule 1 of the inner loop (lines 108-115 of match.py): the student's mandatory gender
  preference is missed by this mentor.
\<close>

definition is_male_preference_miss :: "row \<Rightarrow> row \<Rightarrow> bool" where
  "is_male_preference_miss student mentor =
     (py_eq (row_get student ''gender_preference'') (Some (Str ''Male'')) \<and>
      py_ne (row_get mentor ''gender'') (Some (Str ''Male'')))"

definition is_female_preference_miss :: "row \<Rightarrow> row \<Rightarrow> bool" where
  "is_female_preference_miss student mentor =
     (py_eq (row_get student ''gender_preference'') (Some (Str ''Female'')) \<and>
      py_ne (row_get mentor ''gender'') (Some (Str ''Female'')))"

text \<open>The tie-breaker score (lines 122-124).\<close>

definition campus_score :: "row \<Rightarrow> row \<Rightarrow> int" where
  "campus_score student mentor =
     (if py_eq (row_get student ''campus'') (row_get mentor ''campus'') \<and>
         py_ne (row_get student ''campus'') (Some (Str ''Unknown''))
      then 1 else 0)"

text \<open>
  The inner loop over \<open>mentors_sorted\<close> for one student (lines 105-128). The state is
  \<open>(best_mentor, highest_score)\<close>; a mentor is kept with its index label, which is
  what \<^verbatim>\<open>best_mentor.name\<close> reads. The ledger \<open>mentor_mentee_count\<close> is a
  \<^verbatim>\<open>defaultdict(int)\<close>: a total function, zero where nothing was stored.
\<close>

fun scan_mentors ::
  "row \<Rightarrow> (nat \<Rightarrow> int) \<Rightarrow> int \<Rightarrow> dataframe \<Rightarrow> (nat \<times> row) option \<times> int \<Rightarrow>
   (nat \<times> row) option \<times> int" where
  "scan_mentors student mentor_mentee_count max_mentees_per_mentor [] acc = acc"
| "scan_mentors student mentor_mentee_count max_mentees_per_mentor
     ((mentor_index, mentor) # rest) (best_mentor, highest_score) =
     (if is_male_preference_miss student mentor \<or> is_female_preference_miss student mentor
      then scan_mentors student mentor_mentee_count max_mentees_per_mentor rest
             (best_mentor, highest_score)
      else if mentor_mentee_count mentor_index \<ge> max_mentees_per_mentor
      then scan_mentors student mentor_mentee_count max_mentees_per_mentor rest
             (best_mentor, highest_score)
      else if campus_score student mentor > highest_score
      then scan_mentors student mentor_mentee_count max_mentees_per_mentor rest
             (Some (mentor_index, mentor), campus_score student mentor)
      else scan_mentors student mentor_mentee_count max_mentees_per_mentor rest
             (best_mentor, highest_score))"

text \<open>
  The dict appended to \<open>matches\<close> (lines 131-147). Its values are evaluated in the
  order written; a subscript on a missing column raises KeyError.
\<close>

definition make_match ::
  "nat \<Rightarrow> row \<Rightarrow> nat \<times> row \<Rightarrow> int \<Rightarrow> error + match_record" where
  "make_match student_index student best_mentor highest_score =
     bind_err (row_getitem student ''age'') (\<lambda>student_age.
     bind_err (row_getitem student ''gender_preference'') (\<lambda>student_pref.
     bind_err (row_getitem (snd best_mentor) ''age'') (\<lambda>mentor_age.
     bind_err (row_getitem (snd best_mentor) ''mr./ms.'') (\<lambda>mentor_title.
     bind_err (row_getitem student ''campus'') (\<lambda>campus.
     bind_err (row_getitem student ''student_phone'') (\<lambda>phone.
     bind_err (row_getitem student ''student_email'') (\<lambda>email.
     bind_err (row_getitem student ''student_personal_email'') (\<lambda>personal_email.
     bind_err (row_getitem student ''disability'') (\<lambda>disability.
     bind_err (row_getitem student ''activity_1'') (\<lambda>activity.
       Inr \<lparr> Mentor_Name = row_get (snd best_mentor) ''name'',
             Student_Index = student_index,
             Student_Age = student_age,
             Student_Gender_Preference = student_pref,
             Mentor_Index = fst best_mentor,
             Mentor_Age = mentor_age,
             Mentor_Title = mentor_title,
             Match_Reason = ''Age Priority + Gender Rule + Campus Preference'',
             Same_Campus_Match = (if highest_score > 0 then ''Yes'' else ''No''),
             Assigned_Campus = campus,
             Student_Phone = phone,
             Student_Email = email,
             Student_Personal_Email = personal_email,
             Disability = disability,
             Activity_Preference = activity \<rparr>))))))))))"

text \<open>
  The outer loop over \<open>students_sorted\<close> (lines 101-148), carrying the ledger and
  the matches made so far.
\<close>

fun match_loop ::
  "dataframe \<Rightarrow> int \<Rightarrow> dataframe \<Rightarrow> (nat \<Rightarrow> int) \<times> match_record list \<Rightarrow>
   error + ((nat \<Rightarrow> int) \<times> match_record list)" where
  "match_loop mentors_sorted max_mentees_per_mentor [] st = Inr st"
| "match_loop mentors_sorted max_mentees_per_mentor ((student_index, student) # rest)
     (mentor_mentee_count, matches) =
     (case scan_mentors student mentor_mentee_count max_mentees_per_mentor mentors_sorted
             (None, - 1) of
        (None, highest_score) \<Rightarrow>
          match_loop mentors_sorted max_mentees_per_mentor rest (mentor_mentee_count, matches)
      | (Some best_mentor, highest_score) \<Rightarrow>
          (case make_match student_index student best_mentor highest_score of
             Inl e \<Rightarrow> Inl e
           | Inr m \<Rightarrow>
               match_loop mentors_sorted max_mentees_per_mentor rest
                 (mentor_mentee_count
                    (fst best_mentor := mentor_mentee_count (fst best_mentor) + 1),
                  matches @ [m])))"

text \<open>
  \<open>match_by_age_and_rules\<close> (lines 90-150). The two calls
  \<^verbatim>\<open>df.sort_values(by='age', ascending=False)\<close> are pandas library calls, made with
  the library's default sorting algorithm; their code is not part of the program. The
  function that reorders a frame is therefore a parameter of the model, and what is
  proved of the engine holds for whatever order the library returns. (The call raises
  KeyError on a frame without an \<open>age\<close> column; the model covers frames that have one.)
\<close>

definition match_by_age_and_rules ::
  "(dataframe \<Rightarrow> dataframe) \<Rightarrow> dataframe \<Rightarrow> dataframe \<Rightarrow> int \<Rightarrow> error + match_record list" where
  "match_by_age_and_rules sort_values students_df mentors_df max_mentees_per_mentor =
     (case match_loop (sort_values mentors_df) max_mentees_per_mentor (sort_values students_df)
             (\<lambda>_. 0, []) of
        Inl e \<Rightarrow> Inl e
      | Inr (mentor_mentee_count, matches) \<Rightarrow> Inr matches)"

text \<open>
  The unmatched remainder of the main program (lines 182-186): the rows of the prepared
  student frame whose index label is not a \<open>Student_Index\<close> of the matches.
\<close>

definition unmatched_students :: "dataframe \<Rightarrow> match_record list \<Rightarrow> dataframe" where
  "unmatched_students students_processed matches =
     (if matches \<noteq> []
      then filter (\<lambda>(student_index, student).
                     student_index \<notin> set (map Student_Index matches)) students_processed
      else students_processed)"

section \<open>Predicates used in the statements\<close>

text \<open>A mentor passes both hard filters for this student under this ledger.\<close>

definition eligible :: "row \<Rightarrow> (nat \<Rightarrow> int) \<Rightarrow> int \<Rightarrow> nat \<times> row \<Rightarrow> bool" where
  "eligible student cnt cap x =
     (\<not> is_male_preference_miss student (snd x) \<and>
      \<not> is_female_preference_miss student (snd x) \<and>
      cnt (fst x) < cap)"

text \<open>The columns the loop subscripts (\<^verbatim>\<open>student['age']\<close> and so on).\<close>

definition student_columns :: "string list" where
  "student_columns = [''age'', ''gender_preference'', ''campus'', ''student_phone'',
     ''student_email'', ''student_personal_email'', ''disability'', ''activity_1'']"

definition mentor_columns :: "string list" where
  "mentor_columns = [''age'', ''mr./ms.'']"

definition has_columns :: "string list \<Rightarrow> row \<Rightarrow> bool" where
  "has_columns cols r = list_all (\<lambda>c. r c \<noteq> None) cols"

text \<open>
  What is assumed of the library's \<^verbatim>\<open>sort_values\<close> on a frame: it returns the same
  rows with their labels, in some order.
\<close>

definition rearranges :: "(dataframe \<Rightarrow> dataframe) \<Rightarrow> dataframe \<Rightarrow> bool" where
  "rearranges sort_values df = (mset (sort_values df) = mset df)"

text \<open>The match was made for a student of \<open>St\<close> with a mentor of \<open>M\<close> that passed the filters.\<close>

definition selected_for :: "dataframe \<Rightarrow> dataframe \<Rightarrow> int \<Rightarrow> match_record \<Rightarrow> bool" where
  "selected_for St M cap r =
     (\<exists>si s best c. (si, s) \<in> set St \<and> best \<in> set M \<and> eligible s c cap best \<and>
        make_match si s best (campus_score s (snd best)) = Inr r)"

section \<open>A reference ordering and a small cohort\<close>

text \<open>
  An insertion sort by age, oldest first, rows without a numeric age last, ties in input
  order. It is one function \<open>sort_values\<close> can be instantiated with, used to run the
  engine on concrete frames.
\<close>

definition age_key :: "row \<Rightarrow> int option" where
  "age_key r = (case r ''age'' of Some (Num n) \<Rightarrow> Some n | _ \<Rightarrow> None)"

definition ranks_before :: "row \<Rightarrow> row \<Rightarrow> bool" where
  "ranks_before a b =
     (case age_key a of
        None \<Rightarrow> False
      | Some x \<Rightarrow> (case age_key b of None \<Rightarrow> True | Some y \<Rightarrow> y < x))"

fun insert_by_age :: "nat \<times> row \<Rightarrow> dataframe \<Rightarrow> dataframe" where
  "insert_by_age x [] = [x]"
| "insert_by_age x (y # ys) =
     (if ranks_before (snd y) (snd x) then y # insert_by_age x ys else x # y # ys)"

definition stable_sort_by_age :: "dataframe \<Rightarrow> dataframe" where
  "stable_sort_by_age df = foldr insert_by_age df []"

definition example_student :: "cell \<Rightarrow> cell \<Rightarrow> string \<Rightarrow> row" where
  "example_student age pref campus =
     map_of [(''age'', age), (''gender_preference'', pref), (''campus'', Str campus),
       (''student_phone'', NaN), (''student_email'', NaN), (''student_personal_email'', NaN),
       (''disability'', NaN), (''activity_1'', NaN)]"

definition example_mentor :: "cell \<Rightarrow> string \<Rightarrow> string \<Rightarrow> string \<Rightarrow> row" where
  "example_mentor age title gender campus =
     map_of [(''name'', Str ''M''), (''age'', age), (''mr./ms.'', Str title),
       (''gender'', Str gender), (''campus'', Str campus)]"

definition example_students :: dataframe where
  "example_students =
     [(0, example_student (Num 20) NaN ''1''),
      (1, example_student (Num 50) (Str ''Female'') ''2''),
      (2, example_student NaN (Str ''Male'') ''Unknown'')]"

definition example_mentors :: dataframe where
  "example_mentors =
     [(0, example_mentor (Num 40) ''Mr'' ''Male'' ''1''),
      (1, example_mentor (Num 45) ''Ms'' ''Female'' ''2'')]"

definition example_matches :: "match_record list" where
  "example_matches =
     [\<lparr> Mentor_Name = Some (Str ''M''), Student_Index = 1, Student_Age = Num 50,
        Student_Gender_Preference = Str ''Female'', Mentor_Index = 1, Mentor_Age = Num 45,
        Mentor_Title = Str ''Ms'',
        Match_Reason = ''Age Priority + Gender Rule + Campus Preference'',
        Same_Campus_Match = ''Yes'', Assigned_Campus = Str ''2'', Student_Phone = NaN,
        Student_Email = NaN, Student_Personal_Email = NaN, Disability = NaN,
        Activity_Preference = NaN \<rparr>,
      \<lparr> Mentor_Name = Some (Str ''M''), Student_Index = 0, Student_Age = Num 20,
        Student_Gender_Preference = NaN, Mentor_Index = 0, Mentor_Age = Num 40,
        Mentor_Title = Str ''Mr'',
        Match_Reason = ''Age Priority + Gender Rule + Campus Preference'',
        Same_Campus_Match = ''Yes'', Assigned_Campus = Str ''1'', Student_Phone = NaN,
        Student_Email = NaN, Student_Personal_Email = NaN, Disability = NaN,
        Activity_Preference = NaN \<rparr>]"

section \<open>Lemmas about the two loops\<close>

lemma scan_mentors_none_eligible:
  "\<forall>x \<in> set ms. \<not> eligible s cnt cap x \<Longrightarrow> scan_mentors s cnt cap ms acc = acc"
proof (induction ms)
  case Nil
  then show ?case by simp
next
  case (Cons x ms)
  obtain mi m where x: "x = (mi, m)" by (cases x)
  obtain b h where acc: "acc = (b, h)" by (cases acc)
  from Cons.prems have "\<not> eligible s cnt cap (mi, m)" by (simp add: x)
  moreover from Cons have "scan_mentors s cnt cap ms acc = acc" by simp
  ultimately show ?case unfolding x acc by (auto simp: eligible_def)
qed

lemma campus_score_range: "campus_score s m = 0 \<or> campus_score s m = 1"
  by (simp add: campus_score_def)

lemma scan_mentors_general:
  "scan_mentors s cnt cap ms (b, h) = (b', h') \<Longrightarrow>
     ((b', h') = (b, h) \<and> (\<forall>x \<in> set ms. eligible s cnt cap x \<longrightarrow> campus_score s (snd x) \<le> h)) \<or>
     (\<exists>pre x post. ms = pre @ x # post \<and> b' = Some x \<and> h' = campus_score s (snd x) \<and>
        eligible s cnt cap x \<and> h < campus_score s (snd x) \<and>
        (\<forall>y \<in> set pre. eligible s cnt cap y \<longrightarrow> campus_score s (snd y) < campus_score s (snd x)) \<and>
        (\<forall>y \<in> set post. eligible s cnt cap y \<longrightarrow> campus_score s (snd y) \<le> campus_score s (snd x)))"
proof (induction ms arbitrary: b h)
  case Nil
  then show ?case by simp
next
  case (Cons x ms)
  obtain mi m where x: "x = (mi, m)" by (cases x)
  show ?case
  proof (cases "eligible s cnt cap x")
    case False
    then have "scan_mentors s cnt cap (x # ms) (b, h) = scan_mentors s cnt cap ms (b, h)"
      unfolding x by (auto simp: eligible_def)
    with Cons.prems have r: "scan_mentors s cnt cap ms (b, h) = (b', h')" by simp
    from Cons.IH[OF r] show ?thesis
    proof
      assume "(b', h') = (b, h) \<and> (\<forall>x \<in> set ms. eligible s cnt cap x \<longrightarrow> campus_score s (snd x) \<le> h)"
      with False show ?thesis by auto
    next
      assume "\<exists>pre x post. ms = pre @ x # post \<and> b' = Some x \<and> h' = campus_score s (snd x) \<and>
        eligible s cnt cap x \<and> h < campus_score s (snd x) \<and>
        (\<forall>y \<in> set pre. eligible s cnt cap y \<longrightarrow> campus_score s (snd y) < campus_score s (snd x)) \<and>
        (\<forall>y \<in> set post. eligible s cnt cap y \<longrightarrow> campus_score s (snd y) \<le> campus_score s (snd x))"
      then obtain pre z post where d: "ms = pre @ z # post" "b' = Some z" "h' = campus_score s (snd z)"
        "eligible s cnt cap z" "h < campus_score s (snd z)"
        "\<forall>y \<in> set pre. eligible s cnt cap y \<longrightarrow> campus_score s (snd y) < campus_score s (snd z)"
        "\<forall>y \<in> set post. eligible s cnt cap y \<longrightarrow> campus_score s (snd y) \<le> campus_score s (snd z)"
        by blast
      have "x # ms = (x # pre) @ z # post" using d(1) by simp
      moreover have "\<forall>y \<in> set (x # pre). eligible s cnt cap y \<longrightarrow> campus_score s (snd y) < campus_score s (snd z)"
        using d(6) False by simp
      ultimately show ?thesis using d by blast
    qed
  next
    case True
    show ?thesis
    proof (cases "campus_score s m > h")
      case gt: True
      with True have "scan_mentors s cnt cap (x # ms) (b, h) = scan_mentors s cnt cap ms (Some x, campus_score s m)"
        unfolding x by (auto simp: eligible_def)
      with Cons.prems have r: "scan_mentors s cnt cap ms (Some x, campus_score s m) = (b', h')" by simp
      from Cons.IH[OF r] show ?thesis
      proof
        assume a: "(b', h') = (Some x, campus_score s m) \<and> (\<forall>y \<in> set ms. eligible s cnt cap y \<longrightarrow> campus_score s (snd y) \<le> campus_score s m)"
        have "x # ms = [] @ x # ms" by simp
        moreover have "\<forall>y \<in> set []. eligible s cnt cap y \<longrightarrow> campus_score s (snd y) < campus_score s (snd x)" by simp
        ultimately show ?thesis using a True gt unfolding x by (metis Pair_inject snd_conv)
      next
        assume "\<exists>pre z post. ms = pre @ z # post \<and> b' = Some z \<and> h' = campus_score s (snd z) \<and>
          eligible s cnt cap z \<and> campus_score s m < campus_score s (snd z) \<and>
          (\<forall>y \<in> set pre. eligible s cnt cap y \<longrightarrow> campus_score s (snd y) < campus_score s (snd z)) \<and>
          (\<forall>y \<in> set post. eligible s cnt cap y \<longrightarrow> campus_score s (snd y) \<le> campus_score s (snd z))"
        then obtain pre z post where d: "ms = pre @ z # post" "b' = Some z" "h' = campus_score s (snd z)"
          "eligible s cnt cap z" "campus_score s m < campus_score s (snd z)"
          "\<forall>y \<in> set pre. eligible s cnt cap y \<longrightarrow> campus_score s (snd y) < campus_score s (snd z)"
          "\<forall>y \<in> set post. eligible s cnt cap y \<longrightarrow> campus_score s (snd y) \<le> campus_score s (snd z)"
          by blast
        have "x # ms = (x # pre) @ z # post" using d(1) by simp
        moreover have "\<forall>y \<in> set (x # pre). eligible s cnt cap y \<longrightarrow> campus_score s (snd y) < campus_score s (snd z)"
          using d(5,6) by (simp add: x)
        moreover have "h < campus_score s (snd z)" using gt d(5) by simp
        ultimately show ?thesis using d by blast
      qed
    next
      case le: False
      with True have "scan_mentors s cnt cap (x # ms) (b, h) = scan_mentors s cnt cap ms (b, h)"
        unfolding x by (auto simp: eligible_def)
      with Cons.prems have r: "scan_mentors s cnt cap ms (b, h) = (b', h')" by simp
      from Cons.IH[OF r] show ?thesis
      proof
        assume "(b', h') = (b, h) \<and> (\<forall>x \<in> set ms. eligible s cnt cap x \<longrightarrow> campus_score s (snd x) \<le> h)"
        with le show ?thesis by (auto simp: x)
      next
        assume "\<exists>pre x post. ms = pre @ x # post \<and> b' = Some x \<and> h' = campus_score s (snd x) \<and>
          eligible s cnt cap x \<and> h < campus_score s (snd x) \<and>
          (\<forall>y \<in> set pre. eligible s cnt cap y \<longrightarrow> campus_score s (snd y) < campus_score s (snd x)) \<and>
          (\<forall>y \<in> set post. eligible s cnt cap y \<longrightarrow> campus_score s (snd y) \<le> campus_score s (snd x))"
        then obtain pre z post where d: "ms = pre @ z # post" "b' = Some z" "h' = campus_score s (snd z)"
          "eligible s cnt cap z" "h < campus_score s (snd z)"
          "\<forall>y \<in> set pre. eligible s cnt cap y \<longrightarrow> campus_score s (snd y) < campus_score s (snd z)"
          "\<forall>y \<in> set post. eligible s cnt cap y \<longrightarrow> campus_score s (snd y) \<le> campus_score s (snd z)"
          by blast
        have "x # ms = (x # pre) @ z # post" using d(1) by simp
        moreover have "\<forall>y \<in> set (x # pre). eligible s cnt cap y \<longrightarrow> campus_score s (snd y) < campus_score s (snd z)"
          using d(5,6) le by (simp add: x)
        ultimately show ?thesis using d by blast
      qed
    qed
  qed
qed

lemma make_match_fields:
  assumes "make_match si s best h = Inr r"
  shows "Student_Index r = si" "Mentor_Index r = fst best"
    "Same_Campus_Match r = (if h > 0 then ''Yes'' else ''No'')"
    "s ''gender_preference'' = Some (Student_Gender_Preference r)"
    "s ''campus'' = Some (Assigned_Campus r)"
    "s ''age'' = Some (Student_Age r)"
    "snd best ''age'' = Some (Mentor_Age r)"
    "snd best ''mr./ms.'' = Some (Mentor_Title r)"
    "Mentor_Name r = snd best ''name''"
  using assms
  by (auto simp: make_match_def bind_err_def row_getitem_def row_get_def split: option.splits)

lemma make_match_total:
  assumes "has_columns student_columns s" "has_columns mentor_columns (snd best)"
  shows "\<exists>r. make_match si s best h = Inr r"
  using assms
  by (auto simp: make_match_def bind_err_def row_getitem_def has_columns_def
      student_columns_def mentor_columns_def)

lemma match_loop_Cons_cases:
  assumes "match_loop M cap ((si, s) # rest) (cnt, ms) = Inr res"
  shows "(\<exists>h. scan_mentors s cnt cap M (None, - 1) = (None, h) \<and>
            match_loop M cap rest (cnt, ms) = Inr res) \<or>
         (\<exists>best h r. scan_mentors s cnt cap M (None, - 1) = (Some best, h) \<and>
            make_match si s best h = Inr r \<and>
            match_loop M cap rest (cnt(fst best := cnt (fst best) + 1), ms @ [r]) = Inr res)"
  using assms by (auto split: prod.splits option.splits sum.splits)

lemma scan_mentors_Some:
  assumes "scan_mentors s cnt cap M (None, - 1) = (Some best, h)"
  shows "\<exists>pre post. M = pre @ best # post \<and> h = campus_score s (snd best) \<and>
        eligible s cnt cap best \<and>
        (\<forall>y \<in> set pre. eligible s cnt cap y \<longrightarrow> campus_score s (snd y) < campus_score s (snd best)) \<and>
        (\<forall>y \<in> set post. eligible s cnt cap y \<longrightarrow> campus_score s (snd y) \<le> campus_score s (snd best))"
proof -
  from scan_mentors_general[OF assms] obtain pre x post where
    "M = pre @ x # post \<and> Some best = Some x \<and> h = campus_score s (snd x) \<and>
        eligible s cnt cap x \<and> - 1 < campus_score s (snd x) \<and>
        (\<forall>y \<in> set pre. eligible s cnt cap y \<longrightarrow> campus_score s (snd y) < campus_score s (snd x)) \<and>
        (\<forall>y \<in> set post. eligible s cnt cap y \<longrightarrow> campus_score s (snd y) \<le> campus_score s (snd x))"
    by blast
  then show ?thesis by blast
qed

lemma scan_mentors_None:
  assumes "scan_mentors s cnt cap M (None, - 1) = (None, h)"
  shows "h = - 1 \<and> (\<forall>x \<in> set M. \<not> eligible s cnt cap x)"
proof -
  from scan_mentors_general[OF assms]
  have "h = - 1 \<and> (\<forall>x \<in> set M. eligible s cnt cap x \<longrightarrow> campus_score s (snd x) \<le> - 1)"
    by auto
  moreover have "\<And>x. \<not> campus_score s (snd x) \<le> - 1"
    using campus_score_range by (metis not_one_le_zero neg_le_0_iff_le zero_le_one le_minus_one_simps(3) order.trans)
  ultimately show ?thesis by blast
qed

lemma match_loop_saturated:
  "\<forall>x \<in> set M. cap \<le> cnt (fst x) \<Longrightarrow> match_loop M cap St (cnt, ms) = Inr (cnt, ms)"
proof (induction St)
  case Nil
  then show ?case by simp
next
  case (Cons x St)
  obtain si s where x: "x = (si, s)" by (cases x)
  from Cons.prems have "\<forall>y \<in> set M. \<not> eligible s cnt cap y"
    by (auto simp: eligible_def)
  then have "scan_mentors s cnt cap M (None, - 1) = (None, - 1)"
    by (rule scan_mentors_none_eligible)
  with Cons show ?case by (simp add: x)
qed

lemma selected_for_Cons: "selected_for St M cap r \<Longrightarrow> selected_for (x # St) M cap r"
  unfolding selected_for_def by (metis list.set_intros(2))

lemma match_loop_trace:
  "match_loop M cap St (cnt0, ms0) = Inr (cnt, ms) \<Longrightarrow>
   \<exists>new. ms = ms0 @ new \<and>
     (\<forall>mi. cnt mi = cnt0 mi + int (length (filter (\<lambda>r. Mentor_Index r = mi) new))) \<and>
     subseq (map Student_Index new) (map fst St) \<and>
     (\<forall>r \<in> set new. selected_for St M cap r)"
proof (induction St arbitrary: cnt0 ms0)
  case Nil
  then show ?case by simp
next
  case (Cons x St)
  obtain si s where x: "x = (si, s)" by (cases x)
  from Cons.prems have run: "match_loop M cap ((si, s) # St) (cnt0, ms0) = Inr (cnt, ms)"
    by (simp add: x)
  from match_loop_Cons_cases[OF run] show ?case
  proof
    assume "\<exists>h. scan_mentors s cnt0 cap M (None, - 1) = (None, h) \<and>
            match_loop M cap St (cnt0, ms0) = Inr (cnt, ms)"
    then have "match_loop M cap St (cnt0, ms0) = Inr (cnt, ms)" by blast
    from Cons.IH[OF this] obtain new where n: "ms = ms0 @ new"
      "\<forall>mi. cnt mi = cnt0 mi + int (length (filter (\<lambda>r. Mentor_Index r = mi) new))"
      "subseq (map Student_Index new) (map fst St)"
      "\<forall>r \<in> set new. selected_for St M cap r" by blast
    have "subseq (map Student_Index new) (map fst (x # St))" using n(3) by auto
    moreover have "\<forall>r \<in> set new. selected_for (x # St) M cap r"
      using n(4) selected_for_Cons by blast
    ultimately show ?thesis using n(1,2) by blast
  next
    assume "\<exists>best h r. scan_mentors s cnt0 cap M (None, - 1) = (Some best, h) \<and>
            make_match si s best h = Inr r \<and>
            match_loop M cap St (cnt0(fst best := cnt0 (fst best) + 1), ms0 @ [r]) = Inr (cnt, ms)"
    then obtain best h r where sc: "scan_mentors s cnt0 cap M (None, - 1) = (Some best, h)"
      and mk: "make_match si s best h = Inr r"
      and rest: "match_loop M cap St (cnt0(fst best := cnt0 (fst best) + 1), ms0 @ [r]) = Inr (cnt, ms)"
      by blast
    from Cons.IH[OF rest] obtain new where n: "ms = (ms0 @ [r]) @ new"
      "\<forall>mi. cnt mi = (cnt0(fst best := cnt0 (fst best) + 1)) mi +
          int (length (filter (\<lambda>r. Mentor_Index r = mi) new))"
      "subseq (map Student_Index new) (map fst St)"
      "\<forall>r \<in> set new. selected_for St M cap r" by blast
    from scan_mentors_Some[OF sc] have b: "best \<in> set M" "h = campus_score s (snd best)"
      "eligible s cnt0 cap best" by auto
    have f: "Student_Index r = si" "Mentor_Index r = fst best"
      using make_match_fields[OF mk] by simp_all
    have 1: "ms = ms0 @ (r # new)" using n(1) by simp
    have 2: "\<forall>mi. cnt mi = cnt0 mi + int (length (filter (\<lambda>r. Mentor_Index r = mi) (r # new)))"
      using n(2) f(2) by simp
    have 3: "subseq (map Student_Index (r # new)) (map fst (x # St))"
      using n(3) f(1) by (simp add: x)
    have "(si, s) \<in> set (x # St)" by (simp add: x)
    moreover have "make_match si s best (campus_score s (snd best)) = Inr r"
      using mk b(2) by simp
    ultimately have "selected_for (x # St) M cap r"
      unfolding selected_for_def using b(1,3) by blast
    then have 4: "\<forall>r' \<in> set (r # new). selected_for (x # St) M cap r'"
      using n(4) selected_for_Cons by auto
    from 1 2 3 4 show ?thesis by blast
  qed
qed

lemma match_loop_capacity:
  "\<forall>mi. cnt0 mi \<le> cap \<Longrightarrow> match_loop M cap St (cnt0, ms0) = Inr (cnt, ms) \<Longrightarrow>
   \<forall>mi. cnt mi \<le> cap"
proof (induction St arbitrary: cnt0 ms0)
  case Nil
  then show ?case by simp
next
  case (Cons x St)
  obtain si s where x: "x = (si, s)" by (cases x)
  from Cons.prems have run: "match_loop M cap ((si, s) # St) (cnt0, ms0) = Inr (cnt, ms)"
    by (simp add: x)
  from match_loop_Cons_cases[OF run] show ?case
  proof
    assume "\<exists>h. scan_mentors s cnt0 cap M (None, - 1) = (None, h) \<and>
            match_loop M cap St (cnt0, ms0) = Inr (cnt, ms)"
    then show ?thesis using Cons.IH Cons.prems(1) by blast
  next
    assume "\<exists>best h r. scan_mentors s cnt0 cap M (None, - 1) = (Some best, h) \<and>
            make_match si s best h = Inr r \<and>
            match_loop M cap St (cnt0(fst best := cnt0 (fst best) + 1), ms0 @ [r]) = Inr (cnt, ms)"
    then obtain best h r where sc: "scan_mentors s cnt0 cap M (None, - 1) = (Some best, h)"
      and rest: "match_loop M cap St (cnt0(fst best := cnt0 (fst best) + 1), ms0 @ [r]) = Inr (cnt, ms)"
      by blast
    from scan_mentors_Some[OF sc] have "cnt0 (fst best) < cap" by (auto simp: eligible_def)
    with Cons.prems(1) have "\<forall>mi. (cnt0(fst best := cnt0 (fst best) + 1)) mi \<le> cap" by simp
    from Cons.IH[OF this rest] show ?thesis .
  qed
qed

lemma match_loop_total:
  "\<forall>x \<in> set St. has_columns student_columns (snd x) \<Longrightarrow>
   \<forall>x \<in> set M. has_columns mentor_columns (snd x) \<Longrightarrow>
   \<exists>res. match_loop M cap St (cnt0, ms0) = Inr res"
proof (induction St arbitrary: cnt0 ms0)
  case Nil
  then show ?case by simp
next
  case (Cons x St)
  obtain si s where x: "x = (si, s)" by (cases x)
  obtain b h where sc: "scan_mentors s cnt0 cap M (None, - 1) = (b, h)" by force
  show ?case
  proof (cases b)
    case None
    with sc Cons show ?thesis by (simp add: x)
  next
    case (Some best)
    from scan_mentors_Some[OF sc[unfolded Some]] have "best \<in> set M" by auto
    with Cons.prems(2) have "has_columns mentor_columns (snd best)" by blast
    moreover from Cons.prems(1) have "has_columns student_columns s" by (simp add: x)
    ultimately obtain r where "make_match si s best h = Inr r"
      using make_match_total by blast
    with sc Some Cons show ?thesis by (simp add: x)
  qed
qed

lemma rearranges_set: "rearranges srt df \<Longrightarrow> set (srt df) = set df"
  unfolding rearranges_def by (rule mset_eq_setD)

lemma rearranges_distinct:
  "rearranges srt df \<Longrightarrow> distinct (map fst df) \<Longrightarrow> distinct (map fst (srt df))"
proof -
  assume a: "rearranges srt df" and d: "distinct (map fst df)"
  from a have "mset (map fst (srt df)) = mset (map fst df)"
    unfolding rearranges_def by (metis mset_map)
  then show ?thesis using d by (metis mset_eq_imp_distinct_iff)
qed

lemma mset_insert_by_age: "mset (insert_by_age x ys) = add_mset x (mset ys)"
  by (induction ys) auto

lemma rearranges_stable_sort_by_age: "rearranges stable_sort_by_age df"
  unfolding rearranges_def stable_sort_by_age_def
  by (induction df) (auto simp: mset_insert_by_age)

lemma match_by_age_and_rules_Inr:
  "match_by_age_and_rules srt S M cap = Inr out \<longleftrightarrow>
   (\<exists>cnt. match_loop (srt M) cap (srt S) (\<lambda>_. 0, []) = Inr (cnt, out))"
  unfolding match_by_age_and_rules_def by (auto split: sum.splits)

lemma selected_for_rows:
  assumes "rearranges srt S" "rearranges srt M"
    "match_by_age_and_rules srt S M cap = Inr out" "r \<in> set out"
  shows "\<exists>si s mi m c. (si, s) \<in> set S \<and> (mi, m) \<in> set M \<and> eligible s c cap (mi, m) \<and>
           make_match si s (mi, m) (campus_score s m) = Inr r"
proof -
  from assms(3) obtain cnt where run: "match_loop (srt M) cap (srt S) (\<lambda>_. 0, []) = Inr (cnt, out)"
    using match_by_age_and_rules_Inr by blast
  from match_loop_trace[OF run] assms(4) have "selected_for (srt S) (srt M) cap r" by auto
  then obtain si s best c where f: "(si, s) \<in> set (srt S)" "best \<in> set (srt M)"
    "eligible s c cap best" "make_match si s best (campus_score s (snd best)) = Inr r"
    unfolding selected_for_def by blast
  obtain mi m where best: "best = (mi, m)" by (cases best)
  have "(si, s) \<in> set S" using f(1) rearranges_set[OF assms(1)] by simp
  moreover have "(mi, m) \<in> set M" using f(2) rearranges_set[OF assms(2)] best by simp
  moreover have "eligible s c cap (mi, m)" using f(3) best by simp
  moreover have "make_match si s (mi, m) (campus_score s m) = Inr r" using f(4) best by simp
  ultimately show ?thesis by blast
qed

lemma example_run:
  "match_by_age_and_rules stable_sort_by_age example_students example_mentors 1 =
     Inr example_matches"
  by code_simp

lemma py_eq_Str [simp]: "py_eq a (Some (Str x)) \<longleftrightarrow> a = Some (Str x)"
  by (auto simp: py_eq_def)

lemma py_ne_Str [simp]: "py_ne a (Some (Str x)) \<longleftrightarrow> a \<noteq> Some (Str x)"
  by (simp add: py_ne_def)

lemma scan_mentors_single:
  assumes "eligible s cnt cap (mi, m)"
  shows "scan_mentors s cnt cap [(mi, m)] (None, - 1) = (Some (mi, m), campus_score s m)"
proof -
  have "- 1 < campus_score s m" using campus_score_range[of s m] by auto
  with assms show ?thesis by (simp add: eligible_def)
qed

lemma subseq_set_subset: "subseq xs ys \<Longrightarrow> set xs \<subseteq> set ys"
  by (induction rule: list_emb.induct) auto

lemma subseq_distinct: "subseq xs ys \<Longrightarrow> distinct ys \<Longrightarrow> distinct xs"
  by (induction rule: list_emb.induct) (auto dest: subseq_set_subset)

lemma unmatched_students_filter:
  "unmatched_students S out = filter (\<lambda>x. fst x \<notin> set (map Student_Index out)) S"
  by (cases "out = []") (simp_all add: unmatched_students_def case_prod_unfold)

lemma example_student_pref_unset:
  "row_get (example_student (Num 20) NaN ''1'') ''gender_preference'' \<noteq> Some (Str ''Male'') \<and>
   row_get (example_student (Num 20) NaN ''1'') ''gender_preference'' \<noteq> Some (Str ''Female'')"
  by code_simp

lemma example_tie_eligible:
  "\<exists>x \<in> set (stable_sort_by_age example_mentors).
     eligible (example_student (Num 30) NaN ''Unknown'') (\<lambda>_. 0) 1 x"
  by code_simp

lemma example_tie_order:
  "map fst (stable_sort_by_age example_mentors) = [1, 0] \<and>
   map (\<lambda>x. campus_score (example_student (Num 30) NaN ''Unknown'') (snd x))
     (stable_sort_by_age example_mentors) = [0, 0] \<and>
   map_option fst (fst (scan_mentors (example_student (Num 30) NaN ''Unknown'') (\<lambda>_. 0) 1
     (stable_sort_by_age example_mentors) (None, - 1))) = Some 1"
  by code_simp

lemma example_campus:
  "row_get (example_student (Num 50) (Str ''Female'') ''2'') ''campus'' = Some (Str ''2'') \<and>
   row_get (example_mentor (Num 45) ''Ms'' ''Female'' ''2'') ''campus'' = Some (Str ''2'')"
  by code_simp

lemma example_students_distinct: "distinct (map fst example_students)"
  by code_simp

lemma example_unmatched:
  "map fst (unmatched_students example_students example_matches) = [2] \<and>
   map Student_Index example_matches = [1, 0] \<and>
   map fst example_students = [0, 1, 2]"
  by code_simp

lemma example_columns:
  "list_all (\<lambda>x. has_columns student_columns (snd x)) example_students \<and>
   list_all (\<lambda>x. has_columns mentor_columns (snd x)) example_mentors"
  by code_simp

lemma example_none_eligible:
  "\<not> (\<exists>x \<in> set (stable_sort_by_age example_mentors).
        eligible (example_student NaN (Str ''Male'') ''Unknown'')
          ((\<lambda>_. 0)(1 := 1, 0 := 1)) 1 x)"
  by code_simp

section \<open>Lemmas about the preprocessing functions\<close>

lemma starts_with_prefix: "starts_with p s \<longleftrightarrow> prefix p s"
  by (induction p s rule: starts_with.induct) auto

lemma py_in_sublist: "py_in needle hay \<longleftrightarrow> sublist needle hay"
  by (induction hay) (auto simp: starts_with_prefix sublist_Cons_right)

section \<open>The claims\<close>

text \<open>
  C2. For a capacity \<open>cap \<ge> 0\<close>, the number of Match records of the output that carry a
  given \<open>Mentor_Index\<close> is at most \<open>cap\<close>. The ledger starts at zero everywhere and at
  the end holds, for every mentor label, exactly the number of Match records made for it.
  From any intermediate state the loop only appends Match records, and each ledger entry
  grows by exactly the number of records appended for that mentor: one increment for each
  Match, no decrement.
\<close>

theorem capacity_invariant:
  assumes "0 \<le> cap"
  shows "(\<forall>out. match_by_age_and_rules srt S M cap = Inr out \<longrightarrow>
            (\<exists>cnt. match_loop (srt M) cap (srt S) (\<lambda>_. 0, []) = Inr (cnt, out) \<and>
               (\<forall>mi. cnt mi = int (length (filter (\<lambda>r. Mentor_Index r = mi) out)) \<and>
                     int (length (filter (\<lambda>r. Mentor_Index r = mi) out)) \<le> cap))) \<and>
         (\<forall>cnt0 ms0 cnt ms. match_loop Ms cap St (cnt0, ms0) = Inr (cnt, ms) \<longrightarrow>
            (\<exists>new. ms = ms0 @ new \<and>
               (\<forall>mi. cnt mi = cnt0 mi + int (length (filter (\<lambda>r. Mentor_Index r = mi) new)))))"
proof (intro conjI allI impI)
  fix out
  assume "match_by_age_and_rules srt S M cap = Inr out"
  then obtain cnt where run: "match_loop (srt M) cap (srt S) (\<lambda>_. 0, []) = Inr (cnt, out)"
    using match_by_age_and_rules_Inr by blast
  from match_loop_trace[OF run]
  have led: "\<forall>mi. cnt mi = int (length (filter (\<lambda>r. Mentor_Index r = mi) out))" by auto
  have "\<forall>mi. (\<lambda>_. 0 :: int) mi \<le> cap" using assms by simp
  from match_loop_capacity[OF this run] have "\<forall>mi. cnt mi \<le> cap" .
  with led run
  show "\<exists>cnt. match_loop (srt M) cap (srt S) (\<lambda>_. 0, []) = Inr (cnt, out) \<and>
               (\<forall>mi. cnt mi = int (length (filter (\<lambda>r. Mentor_Index r = mi) out)) \<and>
                     int (length (filter (\<lambda>r. Mentor_Index r = mi) out)) \<le> cap)"
    by metis
next
  fix cnt0 ms0 cnt ms
  assume "match_loop Ms cap St (cnt0, ms0) = Inr (cnt, ms)"
  from match_loop_trace[OF this]
  show "\<exists>new. ms = ms0 @ new \<and>
               (\<forall>mi. cnt mi = cnt0 mi + int (length (filter (\<lambda>r. Mentor_Index r = mi) new)))"
    by blast
qed

theorem capacity_invariant_witness:
  "(0 :: int) \<le> 1 \<and>
   match_by_age_and_rules stable_sort_by_age example_students example_mentors 1 =
     Inr example_matches \<and>
   int (length (filter (\<lambda>r. Mentor_Index r = 1) example_matches)) \<le> 1 \<and>
   length (filter (\<lambda>r. Mentor_Index r = 1) example_matches) = 1"
proof -
  have h: "(0 :: int) \<le> 1" by simp
  from capacity_invariant[OF h, of stable_sort_by_age example_students example_mentors] example_run
  have "int (length (filter (\<lambda>r. Mentor_Index r = 1) example_matches)) \<le> 1" by blast
  moreover have "length (filter (\<lambda>r. Mentor_Index r = 1) example_matches) = 1"
    by (simp add: example_matches_def)
  ultimately show ?thesis using h example_run by simp
qed

text \<open>
  C3. Every Match record of the output was made for a student row and a mentor row of the
  inputs such that: if the student's gender preference is exactly \<open>Male\<close>, the mentor's
  gender is exactly \<open>Male\<close>; if it is exactly \<open>Female\<close>, the mentor's gender is exactly
  \<open>Female\<close>; so a mentor of gender \<open>Unknown\<close> is never matched to a student who prefers
  \<open>Male\<close> or \<open>Female\<close>. A student whose preference is unset (None or NaN) or any other
  value misses no mentor on gender: whatever the mentor's gender, a mentor below capacity
  is selected when it is the only one scanned.
\<close>

theorem gender_hard_constraint:
  "(rearranges srt S \<and> rearranges srt M \<and>
    match_by_age_and_rules srt S M cap = Inr out \<and> r \<in> set out \<longrightarrow>
      (\<exists>si s mi m. (si, s) \<in> set S \<and> (mi, m) \<in> set M \<and>
         Student_Index r = si \<and> Mentor_Index r = mi \<and>
         row_get s ''gender_preference'' = Some (Student_Gender_Preference r) \<and>
         (Student_Gender_Preference r = Str ''Male'' \<longrightarrow>
            row_get m ''gender'' = Some (Str ''Male'')) \<and>
         (Student_Gender_Preference r = Str ''Female'' \<longrightarrow>
            row_get m ''gender'' = Some (Str ''Female'')) \<and>
         (Student_Gender_Preference r = Str ''Male'' \<or>
          Student_Gender_Preference r = Str ''Female'' \<longrightarrow>
            row_get m ''gender'' \<noteq> Some (Str ''Unknown'')))) \<and>
   (row_get student ''gender_preference'' \<noteq> Some (Str ''Male'') \<and>
    row_get student ''gender_preference'' \<noteq> Some (Str ''Female'') \<longrightarrow>
      \<not> is_male_preference_miss student mentor \<and>
      \<not> is_female_preference_miss student mentor \<and>
      (cnt mentor_index < cap \<longrightarrow>
         scan_mentors student cnt cap [(mentor_index, mentor)] (None, - 1) =
           (Some (mentor_index, mentor), campus_score student mentor)))"
proof (intro conjI impI)
  assume a: "rearranges srt S \<and> rearranges srt M \<and>
    match_by_age_and_rules srt S M cap = Inr out \<and> r \<in> set out"
  then obtain si s mi m c where f: "(si, s) \<in> set S" "(mi, m) \<in> set M"
    "eligible s c cap (mi, m)" "make_match si s (mi, m) (campus_score s m) = Inr r"
    using selected_for_rows[of srt S M cap out r] by blast
  note mk = make_match_fields[OF f(4)]
  have pref: "row_get s ''gender_preference'' = Some (Student_Gender_Preference r)"
    using mk(4) by (simp add: row_get_def)
  have male: "Student_Gender_Preference r = Str ''Male'' \<longrightarrow>
      row_get m ''gender'' = Some (Str ''Male'')"
    using f(3) pref by (auto simp: eligible_def is_male_preference_miss_def)
  have female: "Student_Gender_Preference r = Str ''Female'' \<longrightarrow>
      row_get m ''gender'' = Some (Str ''Female'')"
    using f(3) pref by (auto simp: eligible_def is_female_preference_miss_def)
  have unk: "Student_Gender_Preference r = Str ''Male'' \<or>
      Student_Gender_Preference r = Str ''Female'' \<longrightarrow>
      row_get m ''gender'' \<noteq> Some (Str ''Unknown'')"
    using male female by auto
  have "Student_Index r = si" "Mentor_Index r = mi" using mk(1,2) by simp_all
  with f(1,2) pref male female unk
  show "\<exists>si s mi m. (si, s) \<in> set S \<and> (mi, m) \<in> set M \<and>
         Student_Index r = si \<and> Mentor_Index r = mi \<and>
         row_get s ''gender_preference'' = Some (Student_Gender_Preference r) \<and>
         (Student_Gender_Preference r = Str ''Male'' \<longrightarrow>
            row_get m ''gender'' = Some (Str ''Male'')) \<and>
         (Student_Gender_Preference r = Str ''Female'' \<longrightarrow>
            row_get m ''gender'' = Some (Str ''Female'')) \<and>
         (Student_Gender_Preference r = Str ''Male'' \<or>
          Student_Gender_Preference r = Str ''Female'' \<longrightarrow>
            row_get m ''gender'' \<noteq> Some (Str ''Unknown''))"
    by blast
next
  assume a: "row_get student ''gender_preference'' \<noteq> Some (Str ''Male'') \<and>
    row_get student ''gender_preference'' \<noteq> Some (Str ''Female'')"
  then show "\<not> is_male_preference_miss student mentor"
    by (simp add: is_male_preference_miss_def)
  from a show "\<not> is_female_preference_miss student mentor"
    by (simp add: is_female_preference_miss_def)
  assume "cnt mentor_index < cap"
  with a have "eligible student cnt cap (mentor_index, mentor)"
    by (simp add: eligible_def is_male_preference_miss_def is_female_preference_miss_def)
  then show "scan_mentors student cnt cap [(mentor_index, mentor)] (None, - 1) =
           (Some (mentor_index, mentor), campus_score student mentor)"
    by (rule scan_mentors_single)
qed

theorem gender_hard_constraint_witness:
  "rearranges stable_sort_by_age example_students \<and>
   rearranges stable_sort_by_age example_mentors \<and>
   match_by_age_and_rules stable_sort_by_age example_students example_mentors 1 =
     Inr example_matches \<and>
   hd example_matches \<in> set example_matches \<and>
   Student_Gender_Preference (hd example_matches) = Str ''Female'' \<and>
   (\<exists>si s mi m. (si, s) \<in> set example_students \<and> (mi, m) \<in> set example_mentors \<and>
      Student_Index (hd example_matches) = si \<and> Mentor_Index (hd example_matches) = mi \<and>
      row_get s ''gender_preference'' = Some (Str ''Female'') \<and>
      row_get m ''gender'' = Some (Str ''Female'')) \<and>
   row_get (example_student (Num 20) NaN ''1'') ''gender_preference'' \<noteq> Some (Str ''Male'') \<and>
   row_get (example_student (Num 20) NaN ''1'') ''gender_preference'' \<noteq> Some (Str ''Female'') \<and>
   (0 :: int) < 1 \<and>
   scan_mentors (example_student (Num 20) NaN ''1'') (\<lambda>_. 0) 1
       [(0, example_mentor (Num 40) ''Mr'' ''Male'' ''1'')] (None, - 1) =
     (Some (0, example_mentor (Num 40) ''Mr'' ''Male'' ''1''),
      campus_score (example_student (Num 20) NaN ''1'')
        (example_mentor (Num 40) ''Mr'' ''Male'' ''1''))"
proof -
  have h1: "rearranges stable_sort_by_age example_students"
    and h2: "rearranges stable_sort_by_age example_mentors"
    by (rule rearranges_stable_sort_by_age)+
  have h4: "hd example_matches \<in> set example_matches" by (simp add: example_matches_def)
  have p: "Student_Gender_Preference (hd example_matches) = Str ''Female''"
    by (simp add: example_matches_def)
  have c: "(\<lambda>_. 0 :: int) 0 < 1" by simp
  note T = gender_hard_constraint[where srt = stable_sort_by_age and S = example_students
      and M = example_mentors and cap = 1 and out = example_matches
      and r = "hd example_matches" and student = "example_student (Num 20) NaN ''1''"
      and mentor = "example_mentor (Num 40) ''Mr'' ''Male'' ''1''" and cnt = "\<lambda>_. 0"
      and mentor_index = 0]
  from T h1 h2 example_run h4 obtain si s mi m where
    a: "(si, s) \<in> set example_students" "(mi, m) \<in> set example_mentors"
      "Student_Index (hd example_matches) = si" "Mentor_Index (hd example_matches) = mi"
      "row_get s ''gender_preference'' = Some (Student_Gender_Preference (hd example_matches))"
      "Student_Gender_Preference (hd example_matches) = Str ''Female'' \<longrightarrow>
         row_get m ''gender'' = Some (Str ''Female'')"
    by blast
  from a p have e: "\<exists>si s mi m. (si, s) \<in> set example_students \<and> (mi, m) \<in> set example_mentors \<and>
      Student_Index (hd example_matches) = si \<and> Mentor_Index (hd example_matches) = mi \<and>
      row_get s ''gender_preference'' = Some (Str ''Female'') \<and>
      row_get m ''gender'' = Some (Str ''Female'')"
    by metis
  from T example_student_pref_unset c
  have s: "scan_mentors (example_student (Num 20) NaN ''1'') (\<lambda>_. 0) 1
       [(0, example_mentor (Num 40) ''Mr'' ''Male'' ''1'')] (None, - 1) =
     (Some (0, example_mentor (Num 40) ''Mr'' ''Male'' ''1''),
      campus_score (example_student (Num 20) NaN ''1'')
        (example_mentor (Num 40) ''Mr'' ''Male'' ''1''))"
    by blast
  from h1 h2 example_run h4 p e example_student_pref_unset s show ?thesis by simp
qed

text \<open>
  C4. When at least one mentor of the scanned list passes both hard filters, the inner
  loop returns a mentor \<open>best\<close> of the list that passes them, together with its score;
  every eligible mentor scanned before it has a strictly smaller score and every eligible
  mentor scanned after it has a score that is not greater. So \<open>best\<close> is the first
  eligible mentor, in the order scanned, that reaches the maximum score, and an equal
  score later in the list does not displace it. The outer loop makes the Match with this
  mentor (its \<open>Mentor_Index\<close>) and increments this mentor's ledger entry. At every
  step of the scan, a mentor whose score is not strictly greater than the running
  \<open>highest_score\<close> leaves the running best as it is.
\<close>

theorem first_best_mentor_selected:
  assumes "\<exists>x \<in> set mentors_sorted. eligible student cnt cap x"
  shows "\<exists>pre best post.
     mentors_sorted = pre @ best # post \<and>
     scan_mentors student cnt cap mentors_sorted (None, - 1) =
       (Some best, campus_score student (snd best)) \<and>
     eligible student cnt cap best \<and>
     (\<forall>y \<in> set pre. eligible student cnt cap y \<longrightarrow>
        campus_score student (snd y) < campus_score student (snd best)) \<and>
     (\<forall>y \<in> set post. eligible student cnt cap y \<longrightarrow>
        campus_score student (snd y) \<le> campus_score student (snd best)) \<and>
     match_loop mentors_sorted cap ((student_index, student) # rest) (cnt, matches) =
       (case make_match student_index student best (campus_score student (snd best)) of
          Inl e \<Rightarrow> Inl e
        | Inr m \<Rightarrow> match_loop mentors_sorted cap rest
                    (cnt(fst best := cnt (fst best) + 1), matches @ [m])) \<and>
     (\<forall>m. make_match student_index student best (campus_score student (snd best)) = Inr m \<longrightarrow>
        Mentor_Index m = fst best) \<and>
     (\<forall>running highest later others. campus_score student (snd later) \<le> highest \<longrightarrow>
        scan_mentors student cnt cap (later # others) (running, highest) =
          scan_mentors student cnt cap others (running, highest))"
proof -
  obtain b h where sc: "scan_mentors student cnt cap mentors_sorted (None, - 1) = (b, h)"
    by force
  have "b \<noteq> None"
  proof
    assume "b = None"
    with sc scan_mentors_None have "\<forall>x \<in> set mentors_sorted. \<not> eligible student cnt cap x"
      by blast
    with assms show False by blast
  qed
  then obtain best where b: "b = Some best" by blast
  from scan_mentors_Some[OF sc[unfolded b]] obtain pre post where
    d: "mentors_sorted = pre @ best # post" "h = campus_score student (snd best)"
      "eligible student cnt cap best"
      "\<forall>y \<in> set pre. eligible student cnt cap y \<longrightarrow>
         campus_score student (snd y) < campus_score student (snd best)"
      "\<forall>y \<in> set post. eligible student cnt cap y \<longrightarrow>
         campus_score student (snd y) \<le> campus_score student (snd best)"
    by blast
  have sc': "scan_mentors student cnt cap mentors_sorted (None, - 1) =
      (Some best, campus_score student (snd best))"
    using sc b d(2) by simp
  have loop: "match_loop mentors_sorted cap ((student_index, student) # rest) (cnt, matches) =
       (case make_match student_index student best (campus_score student (snd best)) of
          Inl e \<Rightarrow> Inl e
        | Inr m \<Rightarrow> match_loop mentors_sorted cap rest
                    (cnt(fst best := cnt (fst best) + 1), matches @ [m]))"
    by (simp add: sc')
  have idx: "\<forall>m. make_match student_index student best (campus_score student (snd best)) = Inr m \<longrightarrow>
        Mentor_Index m = fst best"
    using make_match_fields(2) by blast
  have keep: "\<forall>running highest later others. campus_score student (snd later) \<le> highest \<longrightarrow>
        scan_mentors student cnt cap (later # others) (running, highest) =
          scan_mentors student cnt cap others (running, highest)"
  proof (intro allI impI)
    fix running highest others and later :: "nat \<times> row"
    assume "campus_score student (snd later) \<le> highest"
    then show "scan_mentors student cnt cap (later # others) (running, highest) =
          scan_mentors student cnt cap others (running, highest)"
      by (cases later) simp
  qed
  from d(1) sc' d(3,4,5) loop idx keep show ?thesis by blast
qed

theorem first_best_mentor_selected_witness:
  "(\<exists>x \<in> set (stable_sort_by_age example_mentors).
      eligible (example_student (Num 30) NaN ''Unknown'') (\<lambda>_. 0) 1 x) \<and>
   map fst (stable_sort_by_age example_mentors) = [1, 0] \<and>
   map (\<lambda>x. campus_score (example_student (Num 30) NaN ''Unknown'') (snd x))
     (stable_sort_by_age example_mentors) = [0, 0] \<and>
   (\<exists>pre best post.
      stable_sort_by_age example_mentors = pre @ best # post \<and>
      fst best = 1 \<and>
      scan_mentors (example_student (Num 30) NaN ''Unknown'') (\<lambda>_. 0) 1
        (stable_sort_by_age example_mentors) (None, - 1) =
        (Some best, campus_score (example_student (Num 30) NaN ''Unknown'') (snd best)) \<and>
      eligible (example_student (Num 30) NaN ''Unknown'') (\<lambda>_. 0) 1 best)"
proof -
  from first_best_mentor_selected[OF example_tie_eligible] obtain pre best post where
    d: "stable_sort_by_age example_mentors = pre @ best # post"
      "scan_mentors (example_student (Num 30) NaN ''Unknown'') (\<lambda>_. 0) 1
        (stable_sort_by_age example_mentors) (None, - 1) =
        (Some best, campus_score (example_student (Num 30) NaN ''Unknown'') (snd best))"
      "eligible (example_student (Num 30) NaN ''Unknown'') (\<lambda>_. 0) 1 best"
    by blast
  from d(2) example_tie_order have "fst best = 1" by simp
  with d example_tie_eligible example_tie_order show ?thesis by blast
qed

text \<open>
  C5. The score is 0 or 1. For a student and a mentor whose campus values are strings
  (what the campus mapping of the preprocessing produces), it is 1 when the two campuses
  are equal and not \<open>Unknown\<close>, and 0 otherwise. Every Match record of
  the output was made for a student row and a mentor row of the inputs, and its
  \<open>Same_Campus_Match\<close> is \<open>Yes\<close> when the score of that pair is positive and \<open>No\<close>
  otherwise.
\<close>

theorem campus_score_and_flag:
  "(campus_score student mentor = 0 \<or> campus_score student mentor = 1) \<and>
   (row_get student ''campus'' = Some (Str student_campus) \<and>
    row_get mentor ''campus'' = Some (Str mentor_campus) \<longrightarrow>
      campus_score student mentor =
        (if mentor_campus = student_campus \<and> student_campus \<noteq> ''Unknown'' then 1 else 0)) \<and>
   (rearranges srt S \<and> rearranges srt M \<and>
    match_by_age_and_rules srt S M cap = Inr out \<and> r \<in> set out \<longrightarrow>
      (\<exists>si s mi m. (si, s) \<in> set S \<and> (mi, m) \<in> set M \<and>
         Student_Index r = si \<and> Mentor_Index r = mi \<and>
         row_get s ''campus'' = Some (Assigned_Campus r) \<and>
         Mentor_Name r = row_get m ''name'' \<and>
         Same_Campus_Match r = (if campus_score s m > 0 then ''Yes'' else ''No'')))"
proof (intro conjI impI)
  show "campus_score student mentor = 0 \<or> campus_score student mentor = 1"
    by (rule campus_score_range)
next
  assume "row_get student ''campus'' = Some (Str student_campus) \<and>
    row_get mentor ''campus'' = Some (Str mentor_campus)"
  then show "campus_score student mentor =
        (if mentor_campus = student_campus \<and> student_campus \<noteq> ''Unknown'' then 1 else 0)"
    by (auto simp: campus_score_def py_eq_def)
next
  assume a: "rearranges srt S \<and> rearranges srt M \<and>
    match_by_age_and_rules srt S M cap = Inr out \<and> r \<in> set out"
  then obtain si s mi m c where f: "(si, s) \<in> set S" "(mi, m) \<in> set M"
    "eligible s c cap (mi, m)" "make_match si s (mi, m) (campus_score s m) = Inr r"
    using selected_for_rows[of srt S M cap out r] by blast
  note mk = make_match_fields[OF f(4)]
  have "Student_Index r = si" "Mentor_Index r = mi"
    "row_get s ''campus'' = Some (Assigned_Campus r)"
    "Mentor_Name r = row_get m ''name''"
    "Same_Campus_Match r = (if campus_score s m > 0 then ''Yes'' else ''No'')"
    using mk by (simp_all add: row_get_def)
  with f(1,2)
  show "\<exists>si s mi m. (si, s) \<in> set S \<and> (mi, m) \<in> set M \<and>
         Student_Index r = si \<and> Mentor_Index r = mi \<and>
         row_get s ''campus'' = Some (Assigned_Campus r) \<and>
         Mentor_Name r = row_get m ''name'' \<and>
         Same_Campus_Match r = (if campus_score s m > 0 then ''Yes'' else ''No'')"
    by blast
qed

theorem campus_score_and_flag_witness:
  "row_get (example_student (Num 50) (Str ''Female'') ''2'') ''campus'' = Some (Str ''2'') \<and>
   row_get (example_mentor (Num 45) ''Ms'' ''Female'' ''2'') ''campus'' = Some (Str ''2'') \<and>
   campus_score (example_student (Num 50) (Str ''Female'') ''2'')
     (example_mentor (Num 45) ''Ms'' ''Female'' ''2'') = 1 \<and>
   rearranges stable_sort_by_age example_students \<and>
   rearranges stable_sort_by_age example_mentors \<and>
   match_by_age_and_rules stable_sort_by_age example_students example_mentors 1 =
     Inr example_matches \<and>
   hd example_matches \<in> set example_matches \<and>
   Same_Campus_Match (hd example_matches) = ''Yes'' \<and>
   (\<exists>si s mi m. (si, s) \<in> set example_students \<and> (mi, m) \<in> set example_mentors \<and>
      Student_Index (hd example_matches) = si \<and> Mentor_Index (hd example_matches) = mi \<and>
      0 < campus_score s m)"
proof -
  have h1: "rearranges stable_sort_by_age example_students"
    and h2: "rearranges stable_sort_by_age example_mentors"
    by (rule rearranges_stable_sort_by_age)+
  have h4: "hd example_matches \<in> set example_matches" by (simp add: example_matches_def)
  have y: "Same_Campus_Match (hd example_matches) = ''Yes''"
    by (simp add: example_matches_def)
  note T = campus_score_and_flag[where student = "example_student (Num 50) (Str ''Female'') ''2''"
      and mentor = "example_mentor (Num 45) ''Ms'' ''Female'' ''2''"
      and student_campus = "''2''" and mentor_campus = "''2''"
      and srt = stable_sort_by_age and S = example_students
      and M = example_mentors and cap = 1 and out = example_matches
      and r = "hd example_matches"]
  from T example_campus
  have sc: "campus_score (example_student (Num 50) (Str ''Female'') ''2'')
     (example_mentor (Num 45) ''Ms'' ''Female'' ''2'') = 1"
    by simp
  from T h1 h2 example_run h4 obtain si s mi m where
    a: "(si, s) \<in> set example_students" "(mi, m) \<in> set example_mentors"
      "Student_Index (hd example_matches) = si" "Mentor_Index (hd example_matches) = mi"
      "Same_Campus_Match (hd example_matches) = (if campus_score s m > 0 then ''Yes'' else ''No'')"
    by blast
  from a(5) y have "0 < campus_score s m" by (simp split: if_splits)
  with a have e: "\<exists>si s mi m. (si, s) \<in> set example_students \<and> (mi, m) \<in> set example_mentors \<and>
      Student_Index (hd example_matches) = si \<and> Mentor_Index (hd example_matches) = mi \<and>
      0 < campus_score s m"
    by blast
  from example_campus sc h1 h2 example_run h4 y e show ?thesis by simp
qed

text \<open>
  C6. When the index labels of the student frame are distinct, no student label occurs
  in two Match records; the labels of the matched students and of the unmatched remainder
  together are exactly the labels of the student frame, and no label is in both; the
  remainder is the student frame as it was passed in, in that order, with the matched
  rows left out (whatever order the sort gave the engine).
\<close>

theorem unmatched_partition:
  assumes "distinct (map fst S)" and "rearranges srt S"
    and "match_by_age_and_rules srt S M cap = Inr out"
  shows "distinct (map Student_Index out) \<and>
     set (map Student_Index out) \<union> set (map fst (unmatched_students S out)) = set (map fst S) \<and>
     set (map Student_Index out) \<inter> set (map fst (unmatched_students S out)) = {} \<and>
     unmatched_students S out = filter (\<lambda>x. fst x \<notin> set (map Student_Index out)) S \<and>
     subseq (unmatched_students S out) S"
proof -
  from assms(3) obtain cnt where run: "match_loop (srt M) cap (srt S) (\<lambda>_. 0, []) = Inr (cnt, out)"
    using match_by_age_and_rules_Inr by blast
  from match_loop_trace[OF run]
  have sub: "subseq (map Student_Index out) (map fst (srt S))" by auto
  have d: "distinct (map fst (srt S))" using rearranges_distinct[OF assms(2,1)] .
  have 1: "distinct (map Student_Index out)" using subseq_distinct[OF sub d] .
  have "set (map Student_Index out) \<subseteq> set (map fst (srt S))"
    using sub by (rule subseq_set_subset)
  then have incl: "set (map Student_Index out) \<subseteq> set (map fst S)"
    using rearranges_set[OF assms(2)] by simp
  note u = unmatched_students_filter[of S out]
  have 2: "set (map Student_Index out) \<union> set (map fst (unmatched_students S out)) =
      set (map fst S)"
    unfolding u using incl by auto
  have 3: "set (map Student_Index out) \<inter> set (map fst (unmatched_students S out)) = {}"
    unfolding u by auto
  have 4: "subseq (unmatched_students S out) S" unfolding u by simp
  from 1 2 3 u 4 show ?thesis by blast
qed

theorem unmatched_partition_witness:
  "distinct (map fst example_students) \<and>
   rearranges stable_sort_by_age example_students \<and>
   match_by_age_and_rules stable_sort_by_age example_students example_mentors 1 =
     Inr example_matches \<and>
   map fst example_students = [0, 1, 2] \<and>
   map Student_Index example_matches = [1, 0] \<and>
   map fst (unmatched_students example_students example_matches) = [2] \<and>
   distinct (map Student_Index example_matches) \<and>
   set (map Student_Index example_matches) \<union>
     set (map fst (unmatched_students example_students example_matches)) =
     set (map fst example_students) \<and>
   set (map Student_Index example_matches) \<inter>
     set (map fst (unmatched_students example_students example_matches)) = {} \<and>
   subseq (unmatched_students example_students example_matches) example_students"
  using unmatched_partition[OF example_students_distinct rearranges_stable_sort_by_age example_run]
    example_students_distinct rearranges_stable_sort_by_age[of example_students]
    example_run example_unmatched
  by blast

text \<open>
  C7. When every student row has the columns the loop subscripts and every mentor row
  has \<open>age\<close> and \<open>mr./ms.\<close>, the engine returns a list of Match records and no error.
  When no mentor passes both hard filters for a student (all at capacity included), the
  inner loop returns no mentor, and the outer loop goes on to the next student with the
  same ledger and the same matches.
\<close>

theorem matching_never_fails:
  "(rearranges srt S \<and> rearranges srt M \<and>
    (\<forall>x \<in> set S. has_columns student_columns (snd x)) \<and>
    (\<forall>x \<in> set M. has_columns mentor_columns (snd x)) \<longrightarrow>
      (\<exists>out. match_by_age_and_rules srt S M cap = Inr out)) \<and>
   ((\<forall>x \<in> set mentors_sorted. \<not> eligible student cnt cap x) \<longrightarrow>
      scan_mentors student cnt cap mentors_sorted (None, - 1) = (None, - 1) \<and>
      match_loop mentors_sorted cap ((student_index, student) # rest) (cnt, matches) =
        match_loop mentors_sorted cap rest (cnt, matches))"
proof (intro conjI impI)
  assume a: "rearranges srt S \<and> rearranges srt M \<and>
    (\<forall>x \<in> set S. has_columns student_columns (snd x)) \<and>
    (\<forall>x \<in> set M. has_columns mentor_columns (snd x))"
  then have "\<forall>x \<in> set (srt S). has_columns student_columns (snd x)"
    "\<forall>x \<in> set (srt M). has_columns mentor_columns (snd x)"
    using rearranges_set by blast+
  from match_loop_total[OF this]
  obtain res where "match_loop (srt M) cap (srt S) (\<lambda>_. 0, []) = Inr res" by blast
  then show "\<exists>out. match_by_age_and_rules srt S M cap = Inr out"
    by (cases res) (simp add: match_by_age_and_rules_def)
next
  assume a: "\<forall>x \<in> set mentors_sorted. \<not> eligible student cnt cap x"
  then show sc: "scan_mentors student cnt cap mentors_sorted (None, - 1) = (None, - 1)"
    by (rule scan_mentors_none_eligible)
  then show "match_loop mentors_sorted cap ((student_index, student) # rest) (cnt, matches) =
        match_loop mentors_sorted cap rest (cnt, matches)"
    by simp
qed

theorem matching_never_fails_witness:
  "rearranges stable_sort_by_age example_students \<and>
   rearranges stable_sort_by_age example_mentors \<and>
   list_all (\<lambda>x. has_columns student_columns (snd x)) example_students \<and>
   list_all (\<lambda>x. has_columns mentor_columns (snd x)) example_mentors \<and>
   (\<exists>out. match_by_age_and_rules stable_sort_by_age example_students example_mentors 1 =
      Inr out) \<and>
   \<not> (\<exists>x \<in> set (stable_sort_by_age example_mentors).
        eligible (example_student NaN (Str ''Male'') ''Unknown'')
          ((\<lambda>_. 0)(1 := 1, 0 := 1)) 1 x) \<and>
   scan_mentors (example_student NaN (Str ''Male'') ''Unknown'') ((\<lambda>_. 0)(1 := 1, 0 := 1)) 1
     (stable_sort_by_age example_mentors) (None, - 1) = (None, - 1) \<and>
   match_loop (stable_sort_by_age example_mentors) 1
     [(2, example_student NaN (Str ''Male'') ''Unknown'')]
     ((\<lambda>_. 0)(1 := 1, 0 := 1), example_matches) =
     Inr ((\<lambda>_. 0)(1 := 1, 0 := 1), example_matches)"
proof -
  have h1: "rearranges stable_sort_by_age example_students"
    and h2: "rearranges stable_sort_by_age example_mentors"
    by (rule rearranges_stable_sort_by_age)+
  have c1: "\<forall>x \<in> set example_students. has_columns student_columns (snd x)"
    and c2: "\<forall>x \<in> set example_mentors. has_columns mentor_columns (snd x)"
    using example_columns by (simp_all add: list_all_iff)
  have n: "\<forall>x \<in> set (stable_sort_by_age example_mentors).
      \<not> eligible (example_student NaN (Str ''Male'') ''Unknown'')
          ((\<lambda>_. 0)(1 := 1, 0 := 1)) 1 x"
    using example_none_eligible by blast
  note T = matching_never_fails[where srt = stable_sort_by_age and S = example_students
      and M = example_mentors and cap = 1
      and mentors_sorted = "stable_sort_by_age example_mentors"
      and student = "example_student NaN (Str ''Male'') ''Unknown''"
      and cnt = "(\<lambda>_. 0)(1 := 1, 0 := 1)" and student_index = 2 and rest = "[]"
      and matches = example_matches]
  from T h1 h2 c1 c2
  have t: "\<exists>out. match_by_age_and_rules stable_sort_by_age example_students example_mentors 1 =
      Inr out" by blast
  from T n
  have s: "scan_mentors (example_student NaN (Str ''Male'') ''Unknown'')
      ((\<lambda>_. 0)(1 := 1, 0 := 1)) 1
      (stable_sort_by_age example_mentors) (None, - 1) = (None, - 1)"
    and l: "match_loop (stable_sort_by_age example_mentors) 1
      [(2, example_student NaN (Str ''Male'') ''Unknown'')]
      ((\<lambda>_. 0)(1 := 1, 0 := 1), example_matches) =
      match_loop (stable_sort_by_age example_mentors) 1 []
      ((\<lambda>_. 0)(1 := 1, 0 := 1), example_matches)"
    by blast+
  from l have l': "match_loop (stable_sort_by_age example_mentors) 1
      [(2, example_student NaN (Str ''Male'') ''Unknown'')]
      ((\<lambda>_. 0)(1 := 1, 0 := 1), example_matches) =
      Inr ((\<lambda>_. 0)(1 := 1, 0 := 1), example_matches)"
    by simp
  from h1 h2 example_columns t example_none_eligible s l' show ?thesis by blast
qed

text \<open>
  C8. With \<open>max_mentees_per_mentor = 0\<close> the engine returns no Match record, for every
  student frame, mentor frame and ordering: every mentor is at capacity from the start.
\<close>

theorem zero_capacity_no_matches: "match_by_age_and_rules sort_values students_df mentors_df 0 = Inr []"
proof -
  have "match_loop (sort_values mentors_df) 0 (sort_values students_df) (\<lambda>_. 0, []) = Inr (\<lambda>_. 0, [])"
    by (rule match_loop_saturated) simp
  then show ?thesis by (simp add: match_by_age_and_rules_def)
qed

text \<open>
  C9. \<open>map_title_to_gender\<close> returns \<open>Unknown\<close> for a title that is not a string; for a
  string it returns \<open>Male\<close> when the lowercased, stripped title contains \<open>mr\<close>, otherwise
  \<open>Female\<close> when it contains \<open>ms\<close>, otherwise \<open>Unknown\<close>. Containment is that of
  contiguous substrings (\<open>sublist\<close>). The \<open>mr\<close> test comes first, so \<open>Mrs\<close> gives
  \<open>Male\<close>, and no other feminine title is recognised: \<open>Miss\<close> gives \<open>Unknown\<close>.
\<close>

theorem map_title_to_gender_literal_rule:
  "map_title_to_gender title =
     (case title of
        Str t \<Rightarrow>
          if sublist ''mr'' (strip (lower t)) then ''Male''
          else if sublist ''ms'' (strip (lower t)) then ''Female''
          else ''Unknown''
      | Num n \<Rightarrow> ''Unknown''
      | NaN \<Rightarrow> ''Unknown'') \<and>
   map_title_to_gender (Str ''Mr.'') = ''Male'' \<and>
   map_title_to_gender (Str '' MS '') = ''Female'' \<and>
   map_title_to_gender (Str ''Mrs'') = ''Male'' \<and>
   map_title_to_gender (Str ''Miss'') = ''Unknown'' \<and>
   map_title_to_gender (Str ''Dr'') = ''Unknown''"
proof -
  have "map_title_to_gender title =
     (case title of
        Str t \<Rightarrow>
          if sublist ''mr'' (strip (lower t)) then ''Male''
          else if sublist ''ms'' (strip (lower t)) then ''Female''
          else ''Unknown''
      | Num n \<Rightarrow> ''Unknown''
      | NaN \<Rightarrow> ''Unknown'')"
    by (simp add: map_title_to_gender_def py_in_sublist Let_def split: cell.splits)
  moreover have "map_title_to_gender (Str ''Mr.'') = ''Male''" by code_simp
  moreover have "map_title_to_gender (Str '' MS '') = ''Female''" by code_simp
  moreover have "map_title_to_gender (Str ''Mrs'') = ''Male''" by code_simp
  moreover have "map_title_to_gender (Str ''Miss'') = ''Unknown''" by code_simp
  moreover have "map_title_to_gender (Str ''Dr'') = ''Unknown''" by code_simp
  ultimately show ?thesis by blast
qed

end
